theory Spec2Isabelle
  imports Complex_Main "HOL-Library.AList" "HOL-Library.Sublist"
begin

section \<open>The offline caching worker (service-worker.js)\<close>

subsection \<open>Data\<close>

text \<open>
  A request: \<open>req.url\<close> and \<open>req.mode\<close>, which the worker reads, and
  \<open>req.method\<close> (here \<open>req_method\<close>), which the host reads when the request is
  stored. A response carries
  a payload, its status and its body (headers are left out), and the flag
  \<open>bodyUsed\<close>: a body can be read once. Response objects live in a store indexed by
  references, so that a response and its clone are two objects.
\<close>

type_synonym url = string
type_synonym ref = nat

record request =
  url :: url
  mode :: string
  req_method :: string

record payload =
  status :: nat
  body :: string

type_synonym content = payload

record response =
  content :: content
  bodyUsed :: bool

text \<open>
  The cache storage of the host: named buckets in creation order, each an association
  list from request URL to stored payload. The network is a function from URL to the
  payload served, \<open>None\<close> when the fetch fails.
\<close>

type_synonym bucket = "(url \<times> content) list"
type_synonym cache_storage = "(string \<times> bucket) list"
type_synonym network = "url \<Rightarrow> content option"

datatype error = FetchFailed | BodyAlreadyUsed

text \<open>The calls the worker makes to the host, in the order it makes them.\<close>

datatype host_call =
    CachesOpen string
  | CachesKeys
  | CachesDelete string
  | CachesMatch url
  | CacheAdd string url
  | CachePut string url ref
  | Fetch url
  | Clone ref
  | SkipWaiting
  | ClientsClaim

text \<open>
  Console output of the install handler: \<open>console.log(`[SW] Cached: ${asset}`)\<close> and
  \<open>console.warn(`[SW] Failed to cache ${asset}: ${err}`)\<close>.
\<close>

datatype console_entry =
    Log_Cached url
  | Warn_Failed url error

record world =
  caches :: cache_storage
  objs :: "response list"
  pending :: "(string \<times> request \<times> ref) list"
  console :: "console_entry list"
  calls :: "host_call list"

definition CACHE_NAME :: string where
  "CACHE_NAME = ''busting-bias-v2''"

definition PRECACHE_ASSETS :: "url list" where
  "PRECACHE_ASSETS =
     [''/'', ''/index.html'', ''/style.css'', ''/game.js'', ''/manifest.json'',
      ''/icons/icon-192.png'', ''/icons/icon-512.png'', ''/correct.wav'',
      ''/incorrect.wav'']"

text \<open>
  The repository holds a second copy of the worker. Its handlers are the same; its
  manifest has a tenth entry, the fallback page.
\<close>

definition PRECACHE_ASSETS_copy :: "url list" where
  "PRECACHE_ASSETS_copy =
     [''/'', ''/index.html'', ''/style.css'', ''/game.js'', ''/manifest.json'',
      ''/icons/icon-192.png'', ''/icons/icon-512.png'', ''/correct.wav'',
      ''/incorrect.wav'', ''/offline.html'']"

subsection \<open>The host: cache storage, network, response objects\<close>

text \<open>
  The host interface the worker consumes: open a bucket by name (created when absent),
  list the bucket names, delete a bucket by name, look a request up, store a payload
  under a request. The store is taken to be reliable: these operations do not fail.
  \<open>caches.match\<close> is a method of the storage, not of one bucket: it asks each bucket in
  creation order and answers with the first hit. A request is identified by its URL as
  the code passes it; resolving a path such as \<open>/offline.html\<close> against the origin of
  the worker is left to the host and not modelled.
\<close>

definition caches_keys :: "cache_storage \<Rightarrow> string list" where
  "caches_keys cs = map fst cs"

definition caches_open :: "string \<Rightarrow> cache_storage \<Rightarrow> cache_storage" where
  "caches_open name cs = (if name \<in> set (caches_keys cs) then cs else cs @ [(name, [])])"

definition caches_delete :: "string \<Rightarrow> cache_storage \<Rightarrow> cache_storage" where
  "caches_delete name cs = AList.delete name cs"

fun caches_match :: "cache_storage \<Rightarrow> url \<Rightarrow> content option" where
  "caches_match [] u = None"
| "caches_match ((name, b) # cs) u =
     (case map_of b u of Some c \<Rightarrow> Some c | None \<Rightarrow> caches_match cs u)"

definition cache_match :: "string \<Rightarrow> cache_storage \<Rightarrow> url \<Rightarrow> content option" where
  "cache_match name cs u = (case map_of cs name of None \<Rightarrow> None | Some b \<Rightarrow> map_of b u)"

definition cache_put :: "string \<Rightarrow> url \<Rightarrow> content \<Rightarrow> cache_storage \<Rightarrow> cache_storage" where
  "cache_put name u c cs = AList.map_entry name (AList.update u c) cs"

definition call :: "host_call \<Rightarrow> world \<Rightarrow> world" where
  "call c w = w\<lparr>calls := calls w @ [c]\<rparr>"

definition alloc :: "content \<Rightarrow> world \<Rightarrow> ref \<times> world" where
  "alloc c w = (length (objs w), w\<lparr>objs := objs w @ [\<lparr>content = c, bodyUsed = False\<rparr>]\<rparr>)"

text \<open>\<open>fetch(req)\<close>: a new response object, or the rejection.\<close>

definition host_fetch :: "network \<Rightarrow> url \<Rightarrow> world \<Rightarrow> (error + ref) \<times> world" where
  "host_fetch net u w =
     (let w1 = call (Fetch u) w in
      case net u of
        None \<Rightarrow> (Inl FetchFailed, w1)
      | Some c \<Rightarrow> (let (r, w2) = alloc c w1 in (Inr r, w2)))"

text \<open>\<open>caches.match(req)\<close>: a new response object built from the stored payload, or
  \<open>undefined\<close> (here \<open>None\<close>).\<close>

definition host_caches_match :: "url \<Rightarrow> world \<Rightarrow> ref option \<times> world" where
  "host_caches_match u w =
     (let w1 = call (CachesMatch u) w in
      case caches_match (caches w1) u of
        None \<Rightarrow> (None, w1)
      | Some c \<Rightarrow> (let (r, w2) = alloc c w1 in (Some r, w2)))"

text \<open>\<open>response.clone()\<close>: throws when the body has been read.\<close>

definition host_clone :: "ref \<Rightarrow> world \<Rightarrow> (error + ref) \<times> world" where
  "host_clone r w =
     (let w1 = call (Clone r) w in
      if r < length (objs w1) \<and> \<not> bodyUsed (objs w1 ! r)
      then (let (r', w2) = alloc (content (objs w1 ! r)) w1 in (Inr r', w2))
      else (Inl BodyAlreadyUsed, w1))"

definition host_caches_open :: "string \<Rightarrow> world \<Rightarrow> world" where
  "host_caches_open name w = (call (CachesOpen name) w)\<lparr>caches := caches_open name (caches w)\<rparr>"

definition host_caches_delete :: "string \<Rightarrow> world \<Rightarrow> world" where
  "host_caches_delete name w =
     (call (CachesDelete name) w)\<lparr>caches := caches_delete name (caches w)\<rparr>"

text \<open>
  \<open>cache.add(asset)\<close>, awaited: fetch and store, or the rejection. For \<open>cache.add\<close>
  the network has no answer also when the server answers with a status that
  \<open>cache.add\<close> refuses (not OK, or 206).
\<close>

definition host_cache_add :: "network \<Rightarrow> string \<Rightarrow> url \<Rightarrow> world \<Rightarrow> (error + unit) \<times> world" where
  "host_cache_add net name u w =
     (let w1 = call (CacheAdd name u) w in
      case net u of
        None \<Rightarrow> (Inl FetchFailed, w1)
      | Some c \<Rightarrow> (Inr (), w1\<lparr>caches := cache_put name u c (caches w1)\<rparr>))"

text \<open>
  \<open>cache.put(req, resp)\<close> whose promise is not awaited: the call is recorded as
  outstanding work. \<open>run_put\<close> is the work itself. The host rejects the put, and
  stores nothing, when the method of the request is not GET, when the status of the
  response is 206 (partial content) and when the body has been read; the worker
  neither awaits nor catches the rejection, so it changes nothing. Otherwise the host
  reads the body of the response it was given (which marks that object used) and
  stores the payload under the request. \<open>settle\<close> runs all outstanding work.
\<close>

definition host_cache_put :: "string \<Rightarrow> request \<Rightarrow> ref \<Rightarrow> world \<Rightarrow> world" where
  "host_cache_put name req r w =
     (call (CachePut name (url req) r) w)\<lparr>pending := pending w @ [(name, req, r)]\<rparr>"

fun run_put :: "string \<times> request \<times> ref \<Rightarrow> world \<Rightarrow> world" where
  "run_put (name, req, r) w =
     (if req_method req \<noteq> ''GET'' then w
      else if \<not> r < length (objs w) then w
      else if status (content (objs w ! r)) = 206 then w
      else if bodyUsed (objs w ! r) then w
      else w\<lparr>objs := (objs w)[r := (objs w ! r)\<lparr>bodyUsed := True\<rparr>],
             caches := cache_put name (url req) (content (objs w ! r)) (caches w)\<rparr>)"

definition settle :: "world \<Rightarrow> world" where
  "settle w = fold run_put (pending w) (w\<lparr>pending := []\<rparr>)"

subsection \<open>The install handler\<close>

fun precache :: "network \<Rightarrow> url list \<Rightarrow> world \<Rightarrow> world" where
  "precache net [] w = w"
| "precache net (asset # rest) w =
     (case host_cache_add net CACHE_NAME asset w of
        (Inr _, w1) \<Rightarrow> precache net rest (w1\<lparr>console := console w1 @ [Log_Cached asset]\<rparr>)
      | (Inl err, w1) \<Rightarrow> precache net rest (w1\<lparr>console := console w1 @ [Warn_Failed asset err]\<rparr>))"

text \<open>
  The handler with the manifest as a parameter; \<open>install\<close> is the handler of
  service-worker.js. The asynchronous body runs up to its first \<open>await\<close> (the call of
  \<open>caches.open\<close>), then \<open>self.skipWaiting()\<close> is called, then the loop runs.
\<close>

definition install_with :: "url list \<Rightarrow> network \<Rightarrow> world \<Rightarrow> world" where
  "install_with manifest net w =
     (let w1 = host_caches_open CACHE_NAME w;
          w2 = call SkipWaiting w1
      in precache net manifest w2)"

definition install :: "network \<Rightarrow> world \<Rightarrow> world" where
  "install = install_with PRECACHE_ASSETS"

subsection \<open>The activate handler\<close>

definition activate :: "world \<Rightarrow> world" where
  "activate w =
     (let w1 = call CachesKeys w;
          keys = caches_keys (caches w1);
          w2 = call ClientsClaim w1
      in fold (\<lambda>key v. if key = CACHE_NAME then v else host_caches_delete key v) keys w2)"

subsection \<open>The fetch handler\<close>

datatype fetch_outcome =
    NotIntercepted
  | RespondWith "ref option"

definition startsWith :: "string \<Rightarrow> string \<Rightarrow> bool" where
  "startsWith s p = prefix p s"

text \<open>
  \<open>NotIntercepted\<close> is the plain \<open>return\<close> before any \<open>event.respondWith\<close>.
  \<open>RespondWith None\<close> is a promise that resolves to \<open>undefined\<close>: the page gets no
  response and the load fails.
\<close>

definition fetch_handler :: "network \<Rightarrow> request \<Rightarrow> world \<Rightarrow> fetch_outcome \<times> world" where
  "fetch_handler net req w =
     (if \<not> startsWith (url req) ''http'' then (NotIntercepted, w)
      else if mode req = ''navigate'' then
        (case host_fetch net (url req) w of
           (Inr r, w1) \<Rightarrow> (RespondWith (Some r), w1)
         | (Inl e, w1) \<Rightarrow>
             (case host_caches_match (url req) w1 of
                (Some r, w2) \<Rightarrow> (RespondWith (Some r), w2)
              | (None, w2) \<Rightarrow>
                  (let (r, w3) = host_caches_match ''/offline.html'' w2
                   in (RespondWith r, w3))))
      else
        (let (cached, w1) = host_caches_match (url req) w in
         if cached \<noteq> None then (RespondWith cached, w1)
         else
           (case host_fetch net (url req) w1 of
              (Inl e, w2) \<Rightarrow> (RespondWith cached, w2)
            | (Inr fresh, w2) \<Rightarrow>
                (if startsWith (url req) ''http'' then
                   (let w3 = host_caches_open CACHE_NAME w2 in
                    case host_clone fresh w3 of
                      (Inl e, w4) \<Rightarrow> (RespondWith cached, w4)
                    | (Inr copy, w4) \<Rightarrow>
                        (RespondWith (Some fresh),
                         host_cache_put CACHE_NAME req copy w4))
                 else (RespondWith (Some fresh), w2)))))"

subsection \<open>Vocabulary of the properties\<close>

definition initial_world :: world where
  "initial_world = \<lparr>caches = [], objs = [], pending = [], console = [], calls = []\<rparr>"

definition is_fetch_call :: "host_call \<Rightarrow> bool" where
  "is_fetch_call c = (case c of Fetch u \<Rightarrow> True | _ \<Rightarrow> False)"

definition net_calls :: "world \<Rightarrow> nat" where
  "net_calls w = length (filter is_fetch_call (calls w))"

definition scheme_of :: "url \<Rightarrow> string" where
  "scheme_of u = takeWhile (\<lambda>c. c \<noteq> CHR '':'') u"

definition is_http :: "request \<Rightarrow> bool" where
  "is_http req \<longleftrightarrow> scheme_of (url req) = ''http'' \<or> scheme_of (url req) = ''https''"

text \<open>
  The schemes of the URLs a browser requests: the fetch schemes (\<open>about\<close>,
  \<open>blob\<close>, \<open>data\<close>, \<open>file\<close>, HTTP and HTTPS), the WebSocket and FTP schemes
  and the extension-internal schemes. A fetch handler is handed requests of these
  schemes at most.
\<close>

definition browser_schemes :: "string list" where
  "browser_schemes =
     [''http'', ''https'', ''about'', ''blob'', ''data'', ''file'', ''ws'', ''wss'', ''ftp'',
      ''chrome-extension'', ''moz-extension'', ''safari-web-extension'']"

text \<open>
  Outstanding \<open>cache.put\<close> work refers to response objects that exist. This holds
  in the initial world and every handler keeps it (lemmas \<open>wf_pending_initial\<close>,
  \<open>wf_pending_install\<close>, \<open>wf_pending_activate\<close>, \<open>wf_pending_fetch\<close>,
  \<open>wf_pending_settle\<close>).
\<close>

definition wf_pending :: "world \<Rightarrow> bool" where
  "wf_pending w \<longleftrightarrow> (\<forall>t \<in> set (pending w). snd (snd t) < length (objs w))"

text \<open>No bucket holds two entries for one request.\<close>

definition distinct_buckets :: "cache_storage \<Rightarrow> bool" where
  "distinct_buckets cs \<longleftrightarrow> (\<forall>nb \<in> set cs. distinct (map fst (snd nb)))"

section \<open>The game scripts\<close>

text \<open>
  Two versions of the game script are in the repository: the word game and the alien
  game. Both keep \<open>stimuli\<close>, \<open>currentIndex\<close> and \<open>score\<close> and both define
  \<open>handleResponse\<close>. One record holds the variables and the page elements that the
  functions modelled here write. A stimulus is \<open>{ word, correct }\<close> in the first
  script and \<open>{ image, correct }\<close> in the second.
\<close>

datatype stimulus =
    Word (word: string) (correct: string)
  | Alien (image: string) (correct: string)

text \<open>The object passed to \<open>saveResponse\<close>; \<open>timeTaken\<close> is in seconds.\<close>

record attempt =
  r_word :: string
  r_choice :: string
  r_isCorrect :: bool
  r_timeTaken :: rat
  r_correctAnswer :: string

datatype score_text =
    ScoreText nat
  | FinalScoreText nat nat

text \<open>The callbacks handed to \<open>setTimeout\<close>.\<close>

datatype timer_callback =
    RemoveShake
  | HideFeedbackAndAdvance
  | Advance

record game =
  stimuli :: "stimulus list"
  currentIndex :: nat
  score :: nat
  responses :: "attempt list"
  startTime :: int
  gameData :: "attempt list option"
  scoreDisplay :: score_text
  feedbackText :: string
  feedbackClass :: string
  feedbackDisplay :: string
  stimulusClasses :: "string list"
  played :: "string list"
  timers :: "(nat \<times> timer_callback) list"
  attemptsList :: "(string \<times> string \<times> string \<times> bool) list"
  stimulusHTML :: string
  gameOverText :: string
  gameOverHidden :: bool
  leftDisabled :: bool
  rightDisabled :: bool
  restartHidden :: bool
  skipHidden :: bool
  attemptsPanelHidden :: bool

text \<open>The check mark U+2714 and the ballot cross U+2718, as UTF-8 bytes.\<close>

definition check_mark :: string where
  "check_mark = [CHR 0xE2, CHR 0x9C, CHR 0x94]"

definition ballot_x :: string where
  "ballot_x = [CHR 0xE2, CHR 0x9C, CHR 0x98]"

definition classList_add :: "string \<Rightarrow> string list \<Rightarrow> string list" where
  "classList_add c cl = (if c \<in> set cl then cl else cl @ [c])"

subsection \<open>The word game\<close>

definition originalStimuli :: "stimulus list" where
  "originalStimuli =
     [Word ''Apple'' ''left'', Word ''Banana'' ''right'', Word ''Dog'' ''right'',
      Word ''Car'' ''left'']"

definition updateScoreDisplay :: "bool \<Rightarrow> game \<Rightarrow> game" where
  "updateScoreDisplay final g =
     g\<lparr>scoreDisplay := (if final then FinalScoreText (score g) (length (stimuli g))
                          else ScoreText (score g))\<rparr>"

definition saveResponse :: "attempt \<Rightarrow> game \<Rightarrow> game" where
  "saveResponse response g =
     (let g1 = g\<lparr>responses := responses g @ [response]\<rparr>
      in g1\<lparr>gameData := Some (responses g1)\<rparr>)"

definition showFeedback :: "bool \<Rightarrow> game \<Rightarrow> game" where
  "showFeedback isCorrect g =
     (let g1 = g\<lparr>feedbackText := (if isCorrect then check_mark else ballot_x),
                  feedbackClass := (if isCorrect then ''correct'' else ''incorrect''),
                  feedbackDisplay := ''block'',
                  played := played g @ [if isCorrect then ''correct-sound'' else ''incorrect-sound'']\<rparr>;
          g2 = (if \<not> isCorrect
                then g1\<lparr>stimulusClasses := classList_add ''shake'' (stimulusClasses g1),
                        timers := timers g1 @ [(400, RemoveShake)]\<rparr>
                else g1)
      in g2\<lparr>timers := timers g2 @ [(600, HideFeedbackAndAdvance)]\<rparr>)"

text \<open>\<open>now\<close> is the value of \<open>Date.now()\<close> at the call, in milliseconds.\<close>

definition handleResponse :: "string \<Rightarrow> int \<Rightarrow> game \<Rightarrow> game" where
  "handleResponse choice now g =
     (if currentIndex g \<ge> length (stimuli g) then g
      else
        (let wordObj = stimuli g ! currentIndex g;
             isCorrect = (choice = correct wordObj);
             g1 = (if isCorrect then g\<lparr>score := score g + 1\<rparr> else g);
             g2 = updateScoreDisplay False g1;
             timeTaken = of_int (now - startTime g2) / 1000;
             g3 = saveResponse \<lparr>r_word = word wordObj, r_choice = choice,
                                 r_isCorrect = isCorrect, r_timeTaken = timeTaken,
                                 r_correctAnswer = correct wordObj\<rparr> g2
         in showFeedback isCorrect g3))"

subsection \<open>The alien game\<close>

text \<open>A recap row: the thumbnail, the choice, the assigned category and the mark.\<close>

definition logAttempt :: "stimulus \<Rightarrow> string \<Rightarrow> game \<Rightarrow> game" where
  "logAttempt alien choice g =
     (let isCorrect = (choice = correct alien)
      in g\<lparr>attemptsList := attemptsList g @ [(image alien, choice, correct alien, isCorrect)]\<rparr>)"

definition handleResponse_alien :: "string \<Rightarrow> game \<Rightarrow> game" where
  "handleResponse_alien choice g =
     (if currentIndex g \<ge> length (stimuli g) then g
      else
        (let alien = stimuli g ! currentIndex g;
             isCorrect = (choice = correct alien);
             g1 = (if isCorrect
                   then g\<lparr>feedbackText := ''Positive'',
                          played := played g @ [''/sounds/positive.wav''],
                          score := score g + 1,
                          scoreDisplay := ScoreText (score g + 1)\<rparr>
                   else g\<lparr>feedbackText := ''Negative'',
                          played := played g @ [''/sounds/negative.wav'']\<rparr>);
             g2 = logAttempt alien choice g1
         in g2\<lparr>timers := timers g2 @ [(600, Advance)]\<rparr>))"

text \<open>
  The stimuli of the alien game, built by the two nested \<open>forEach\<close> loops: the
  category alternates with the parity of the two indices.
\<close>

definition alienColors :: "string list" where
  "alienColors = [''blue'', ''brown'', ''green'', ''grey'']"

definition alienTypes :: "string list" where
  "alienTypes = [''alien01'', ''alien02'']"

definition originalStimuli_alien :: "stimulus list" where
  "originalStimuli_alien =
     concat (map (\<lambda>(tIndex, atype).
                map (\<lambda>(cIndex, color).
                       Alien (''/images/'' @ atype @ ''_'' @ color @ ''.png'')
                             (if (tIndex + cIndex) mod 2 = 0 then ''right'' else ''left''))
                    (enumerate 0 alienColors))
             (enumerate 0 alienTypes))"

text \<open>
  \<open>endGame\<close> of the alien game, reached from \<open>showNextStimulus\<close> and from the
  Skip to End button. It leaves \<open>currentIndex\<close> as it is.
\<close>

definition endGame_alien :: "game \<Rightarrow> game" where
  "endGame_alien g =
     g\<lparr>stimulusHTML := [],
       gameOverText := ''Game Over!'',
       gameOverHidden := False,
       leftDisabled := True,
       rightDisabled := True,
       restartHidden := False,
       skipHidden := True,
       attemptsPanelHidden := False\<rparr>"

text \<open>The markup written into \<open>#stimulus\<close> is represented by the image it shows.\<close>

definition showNextStimulus_alien :: "game \<Rightarrow> game" where
  "showNextStimulus_alien g =
     (if currentIndex g < length (stimuli g)
      then (let alien = stimuli g ! currentIndex g
            in g\<lparr>stimulusHTML := image alien, feedbackText := []\<rparr>)
      else endGame_alien g)"

text \<open>\<open>shuffled\<close> is what \<open>shuffleArray([...originalStimuli])\<close> returned.\<close>

definition initGame_alien :: "stimulus list \<Rightarrow> game \<Rightarrow> game" where
  "initGame_alien shuffled g =
     showNextStimulus_alien
       (g\<lparr>stimuli := shuffled,
          currentIndex := 0,
          score := 0,
          scoreDisplay := ScoreText 0,
          leftDisabled := False,
          rightDisabled := False,
          restartHidden := True,
          skipHidden := False,
          gameOverHidden := True,
          attemptsPanelHidden := True,
          attemptsList := []\<rparr>)"

text \<open>
  The oldest timer fires. The callback of \<open>handleResponse\<close> in the alien game is
  \<open>currentIndex++; showNextStimulus()\<close>.
\<close>

definition fire_timer_alien :: "game \<Rightarrow> game" where
  "fire_timer_alien g =
     (case timers g of
        [] \<Rightarrow> g
      | (delay, cb) # rest \<Rightarrow>
          (let g1 = g\<lparr>timers := rest\<rparr>
           in case cb of
                Advance \<Rightarrow> showNextStimulus_alien (g1\<lparr>currentIndex := currentIndex g1 + 1\<rparr>)
              | _ \<Rightarrow> g1))"

text \<open>
  The event listeners of the alien game. A disabled button dispatches no click and a
  hidden button cannot be clicked; the \<open>keydown\<close> listener is on the document and
  is never removed.
\<close>

definition click_left_alien :: "game \<Rightarrow> game" where
  "click_left_alien g = (if leftDisabled g then g else handleResponse_alien ''left'' g)"

definition click_right_alien :: "game \<Rightarrow> game" where
  "click_right_alien g = (if rightDisabled g then g else handleResponse_alien ''right'' g)"

definition click_skip_alien :: "game \<Rightarrow> game" where
  "click_skip_alien g = (if skipHidden g then g else endGame_alien g)"

definition keydown_alien :: "string \<Rightarrow> game \<Rightarrow> game" where
  "keydown_alien key g =
     (let g1 = (if key = ''ArrowLeft'' then handleResponse_alien ''left'' g else g)
      in if key = ''ArrowRight'' then handleResponse_alien ''right'' g1 else g1)"

subsection \<open>Example inputs\<close>

definition css_request :: request where
  "css_request = \<lparr>url = ''https://h/style.css'', mode = ''no-cors'', req_method = ''GET''\<rparr>"

definition page_request :: request where
  "page_request = \<lparr>url = ''https://h/about.html'', mode = ''navigate'', req_method = ''GET''\<rparr>"



definition extension_request :: request where
  "extension_request =
     \<lparr>url = ''chrome-extension://abc/x.js'', mode = ''no-cors'', req_method = ''GET''\<rparr>"

text \<open>A payload with status 200.\<close>

definition served :: "string \<Rightarrow> content" where
  "served b = \<lparr>status = 200, body = b\<rparr>"

definition cached_css_world :: world where
  "cached_css_world =
     initial_world\<lparr>caches := [(CACHE_NAME, [(''https://h/style.css'', served ''cached css'')])]\<rparr>"

definition offline :: network where
  "offline = (\<lambda>u. None)"

definition online :: network where
  "online = (\<lambda>u. Some (served u))"


definition blank_page :: game where
  "blank_page =
     \<lparr>stimuli = [], currentIndex = 0, score = 0, responses = [], startTime = 0,
      gameData = None, scoreDisplay = ScoreText 0, feedbackText = [], feedbackClass = [],
      feedbackDisplay = [], stimulusClasses = [], played = [], timers = [],
      attemptsList = [], stimulusHTML = [], gameOverText = [], gameOverHidden = True,
      leftDisabled = False, rightDisabled = False, restartHidden = True,
      skipHidden = False, attemptsPanelHidden = True\<rparr>"

text \<open>
  The alien game after the page has loaded, the stimuli in their original order;
  then after a click on Skip to End.
\<close>

definition alien_start :: game where
  "alien_start = initGame_alien originalStimuli_alien blank_page"

definition alien_skipped :: game where
  "alien_skipped = click_skip_alien alien_start"

text \<open>
  The alien game showing its eighth and last alien: seven right answers by key, each
  followed by its timer.
\<close>

definition alien_at_last :: game where
  "alien_at_last =
     fold (\<lambda>key g. fire_timer_alien (keydown_alien key g))
       [''ArrowRight'', ''ArrowLeft'', ''ArrowRight'', ''ArrowLeft'', ''ArrowLeft'',
        ''ArrowRight'', ''ArrowLeft'']
       alien_start"

text \<open>
  The word game showing its fourth and last word, \<open>Car\<close>, after three right
  answers of one second each.
\<close>

definition word_at_last :: game where
  "word_at_last =
     blank_page
      \<lparr>stimuli := originalStimuli, currentIndex := 3, score := 3,
       responses :=
         [\<lparr>r_word = ''Apple'', r_choice = ''left'', r_isCorrect = True, r_timeTaken = 1,
           r_correctAnswer = ''left''\<rparr>,
          \<lparr>r_word = ''Banana'', r_choice = ''right'', r_isCorrect = True, r_timeTaken = 1,
           r_correctAnswer = ''right''\<rparr>,
          \<lparr>r_word = ''Dog'', r_choice = ''right'', r_isCorrect = True, r_timeTaken = 1,
           r_correctAnswer = ''right''\<rparr>],
       startTime := 5000,
       gameData :=
         Some
          [\<lparr>r_word = ''Apple'', r_choice = ''left'', r_isCorrect = True, r_timeTaken = 1,
            r_correctAnswer = ''left''\<rparr>,
           \<lparr>r_word = ''Banana'', r_choice = ''right'', r_isCorrect = True, r_timeTaken = 1,
            r_correctAnswer = ''right''\<rparr>,
           \<lparr>r_word = ''Dog'', r_choice = ''right'', r_isCorrect = True, r_timeTaken = 1,
            r_correctAnswer = ''right''\<rparr>],
       scoreDisplay := ScoreText 3, feedbackText := check_mark, feedbackClass := ''correct'',
       feedbackDisplay := ''none'', stimulusClasses := [''slide-in-left''],
       played := [''correct-sound'', ''correct-sound'', ''correct-sound'']\<rparr>"

definition about_cached_world :: world where
  "about_cached_world =
     initial_world\<lparr>caches := [(CACHE_NAME, [(''https://h/about.html'', served ''about''),
                                               (''/offline.html'', served ''sorry'')])]\<rparr>"

definition offline_page_world :: world where
  "offline_page_world =
     initial_world\<lparr>caches := [(CACHE_NAME, [(''/offline.html'', served ''sorry'')])]\<rparr>"

definition stale_b_world :: world where
  "stale_b_world = initial_world\<lparr>caches := [(CACHE_NAME, [(''/b.js'', served ''old'')])]\<rparr>"

definition a_js_fails :: network where
  "a_js_fails = (\<lambda>u. if u = ''/a.js'' then None else Some (served ''B''))"

section \<open>Properties of the worker\<close>

subsection \<open>The storage\<close>

lemma current_in_keys_iff: "name \<in> set (caches_keys cs) \<longleftrightarrow> map_of cs name \<noteq> None"
  by (simp add: caches_keys_def map_of_eq_None_iff)

lemma caches_open_has: "name \<in> set (caches_keys (caches_open name cs))"
  by (simp add: caches_open_def caches_keys_def)

lemma caches_open_triv: "name \<in> set (caches_keys cs) \<Longrightarrow> caches_open name cs = cs"
  by (simp add: caches_open_def)


lemma caches_match_open: "caches_match (caches_open name cs) u = caches_match cs u"
proof -
  have "caches_match (cs @ [(name, [])]) u = caches_match cs u"
    by (induction cs u rule: caches_match.induct) (simp_all split: option.splits)
  then show ?thesis by (simp add: caches_open_def)
qed

lemma cache_match_put:
  "cache_match name (cache_put name u c cs) u' =
     (case map_of cs name of None \<Rightarrow> None | Some b \<Rightarrow> if u' = u then Some c else map_of b u')"
  by (simp add: cache_match_def cache_put_def map_of_map_entry update_conv' split: option.splits)

lemma caches_match_put_other:
  "u \<noteq> u' \<Longrightarrow> caches_match (cache_put name u' c cs) u = caches_match cs u"
  unfolding cache_put_def
  by (induction cs u rule: caches_match.induct) (simp_all add: update_conv' split: option.splits)

lemma keys_cache_put: "caches_keys (cache_put name u c cs) = caches_keys cs"
  unfolding caches_keys_def cache_put_def
  by (induction cs) auto

lemma map_entry_triv:
  "(\<And>b. map_of cs name = Some b \<Longrightarrow> f b = b) \<Longrightarrow> AList.map_entry name f cs = cs"
  by (induction cs) (auto split: if_splits)

lemma cache_put_triv:
  "cache_match name cs u = Some c \<Longrightarrow> cache_put name u c cs = cs"
  unfolding cache_put_def
  by (rule map_entry_triv) (simp add: cache_match_def update_triv)


text \<open>
  Once the current bucket is the only one, the storage-wide lookup of the fetch handler
  is the lookup in that bucket.
\<close>

lemma caches_match_single:
  "caches_keys cs = [CACHE_NAME] \<Longrightarrow> caches_match cs u = cache_match CACHE_NAME cs u"
  by (cases cs) (auto simp: caches_keys_def cache_match_def split: option.splits)

lemma cache_put_distinct:
  "distinct_buckets cs \<Longrightarrow> distinct_buckets (cache_put name u c cs)"
  unfolding distinct_buckets_def cache_put_def
  by (induction cs) (auto simp: distinct_update split: if_splits)

subsection \<open>Installation\<close>

lemma precache_keys: "caches_keys (caches (precache net ms w)) = caches_keys (caches w)"
  by (induction ms arbitrary: w)
     (simp_all add: host_cache_add_def call_def Let_def keys_cache_put split: option.splits)

lemma precache_stores:
  assumes "CACHE_NAME \<in> set (caches_keys (caches w))" and "net a = Some c"
    and "a \<in> set ms \<or> cache_match CACHE_NAME (caches w) a = Some c"
  shows "cache_match CACHE_NAME (caches (precache net ms w)) a = Some c"
  using assms
proof (induction ms arbitrary: w)
  case Nil
  then show ?case by simp
next
  case (Cons m ms)
  obtain b where b: "map_of (caches w) CACHE_NAME = Some b"
    using Cons.prems(1) by (auto simp: current_in_keys_iff)
  show ?case
  proof (cases "net m")
    case None
    with Cons.prems have "m \<noteq> a" by auto
    with None Cons.prems
      Cons.IH [of "w\<lparr>calls := calls w @ [CacheAdd CACHE_NAME m],
                     console := console w @ [Warn_Failed m FetchFailed]\<rparr>"]
    show ?thesis
      by (auto simp: host_cache_add_def call_def Let_def)
  next
    case (Some d)
    let ?w = "w\<lparr>calls := calls w @ [CacheAdd CACHE_NAME m],
                 caches := cache_put CACHE_NAME m d (caches w),
                 console := console w @ [Log_Cached m]\<rparr>"
    have step: "precache net (m # ms) w = precache net ms ?w"
      using Some by (simp add: host_cache_add_def call_def Let_def)
    have k: "CACHE_NAME \<in> set (caches_keys (caches ?w))"
      using Cons.prems(1) by (simp add: keys_cache_put)
    have put: "cache_match CACHE_NAME (caches ?w) a = (if a = m then Some d else map_of b a)"
      using b by (simp add: cache_match_put)
    have old: "cache_match CACHE_NAME (caches w) a = map_of b a"
      using b by (simp add: cache_match_def)
    have "a \<in> set ms \<or> cache_match CACHE_NAME (caches ?w) a = Some c"
      using Cons.prems(2,3) Some put old by auto
    then show ?thesis
      unfolding step using Cons.IH [OF k Cons.prems(2)] by simp
  qed
qed

lemma precache_console_mono:
  "x \<in> set (console w) \<Longrightarrow> x \<in> set (console (precache net ms w))"
  by (induction ms arbitrary: w)
     (auto simp: host_cache_add_def call_def Let_def split: option.splits)

lemma precache_warns:
  "a \<in> set ms \<Longrightarrow> net a = None \<Longrightarrow>
   Warn_Failed a FetchFailed \<in> set (console (precache net ms w))"
proof (induction ms arbitrary: w)
  case Nil
  then show ?case by simp
next
  case (Cons m ms)
  show ?case
  proof (cases "m = a")
    case True
    then show ?thesis using Cons.prems(2)
      by (simp add: host_cache_add_def call_def Let_def precache_console_mono)
  next
    case False
    then show ?thesis using Cons
      by (auto simp: host_cache_add_def call_def Let_def split: option.splits)
  qed
qed

lemma precache_noop:
  "(\<And>a c. a \<in> set ms \<Longrightarrow> net a = Some c \<Longrightarrow> cache_match CACHE_NAME (caches w) a = Some c)
   \<Longrightarrow> caches (precache net ms w) = caches w"
proof (induction ms arbitrary: w)
  case Nil
  show ?case by simp
next
  case (Cons m ms)
  show ?case
  proof (cases "net m")
    case None
    then show ?thesis
      using Cons.IH [of "w\<lparr>calls := calls w @ [CacheAdd CACHE_NAME m],
                          console := console w @ [Warn_Failed m FetchFailed]\<rparr>"] Cons.prems
      by (simp add: host_cache_add_def call_def Let_def)
  next
    case (Some d)
    have "cache_match CACHE_NAME (caches w) m = Some d"
      using Cons.prems [of m d] Some by simp
    then have triv: "cache_put CACHE_NAME m d (caches w) = caches w"
      by (rule cache_put_triv)
    show ?thesis
      using Some triv
        Cons.IH [of "w\<lparr>calls := calls w @ [CacheAdd CACHE_NAME m], caches := caches w,
                       console := console w @ [Log_Cached m]\<rparr>"] Cons.prems
      by (simp add: host_cache_add_def call_def Let_def)
  qed
qed

lemma precache_match_other:
  "u \<notin> set ms \<Longrightarrow> caches_match (caches (precache net ms w)) u = caches_match (caches w) u"
  by (induction ms arbitrary: w)
     (auto simp: host_cache_add_def call_def Let_def caches_match_put_other split: option.splits)

lemma install_has_bucket:
  "CACHE_NAME \<in> set (caches_keys (caches (install_with manifest net w)))"
  by (simp add: install_with_def Let_def precache_keys call_def host_caches_open_def caches_open_has)

lemma install_stores:
  assumes "a \<in> set manifest" and "net a = Some c"
  shows "cache_match CACHE_NAME (caches (install_with manifest net w)) a = Some c"
proof -
  let ?w = "call SkipWaiting (host_caches_open CACHE_NAME w)"
  have k: "CACHE_NAME \<in> set (caches_keys (caches ?w))"
    by (simp add: call_def host_caches_open_def caches_open_has)
  show ?thesis
    using precache_stores [of ?w net a c manifest] k assms
    by (simp add: install_with_def Let_def)
qed

lemma install_warns:
  assumes "a \<in> set manifest" and "net a = None"
  shows "Warn_Failed a FetchFailed \<in> set (console (install_with manifest net w))"
  using assms by (simp add: install_with_def Let_def precache_warns)

lemma install_match_other:
  "u \<notin> set manifest \<Longrightarrow>
   caches_match (caches (install_with manifest net w)) u = caches_match (caches w) u"
  by (simp add: install_with_def Let_def precache_match_other call_def host_caches_open_def
      caches_match_open)

lemma precache_distinct:
  "distinct_buckets (caches w) \<Longrightarrow> distinct_buckets (caches (precache net ms w))"
  by (induction ms arbitrary: w)
     (auto simp: host_cache_add_def call_def Let_def cache_put_distinct split: option.splits)

text \<open>Install puts no request into a bucket twice.\<close>

lemma install_distinct:
  "distinct_buckets (caches w) \<Longrightarrow> distinct_buckets (caches (install_with manifest net w))"
proof -
  assume d: "distinct_buckets (caches w)"
  have "distinct_buckets (caches_open CACHE_NAME (caches w))"
    using d by (auto simp: distinct_buckets_def caches_open_def)
  then show ?thesis
    by (simp add: install_with_def Let_def precache_distinct call_def host_caches_open_def)
qed

text \<open>
  C4: install returns for every manifest, network and starting world, and for every
  entry of the manifest: when its fetch succeeds the current bucket holds the entry
  afterwards, whatever happened to the entries before and after it; when its fetch
  fails a warning for it is on the console. So each entry is in the bucket or has its
  warning, and a failing entry stops neither the later entries nor the installation.
\<close>

theorem install_isolates_failures:
  "\<forall>a \<in> set manifest.
     (case net a of
        Some c \<Rightarrow> cache_match CACHE_NAME (caches (install_with manifest net w)) a = Some c
      | None \<Rightarrow> Warn_Failed a FetchFailed \<in> set (console (install_with manifest net w)))"
  by (simp add: install_stores install_warns split: option.splits)

text \<open>The scenario of the specification: \<open>/a.js\<close> fails, \<open>/b.js\<close> is stored.\<close>

theorem install_isolates_failures_witness:
  "''/a.js'' \<in> set [''/a.js'', ''/b.js''] \<and> ''/b.js'' \<in> set [''/a.js'', ''/b.js'']
   \<and> a_js_fails ''/a.js'' = None \<and> a_js_fails ''/b.js'' = Some (served ''B'')
   \<and> caches (install_with [''/a.js'', ''/b.js''] a_js_fails initial_world)
       = [(CACHE_NAME, [(''/b.js'', served ''B'')])]
   \<and> console (install_with [''/a.js'', ''/b.js''] a_js_fails initial_world)
       = [Warn_Failed ''/a.js'' FetchFailed, Log_Cached ''/b.js'']"
  using install_isolates_failures
      [where manifest = "[''/a.js'', ''/b.js'']" and net = a_js_fails and w = initial_world]
  by (simp add: install_with_def Let_def host_caches_open_def caches_open_def caches_keys_def
      call_def host_cache_add_def cache_put_def initial_world_def a_js_fails_def)

text \<open>
  A second install changes nothing in the storage as long as every fetch that
  succeeds in it brings the payload the first install stored; fetches that fail in the
  second run leave their entries alone.
\<close>

lemma install_again:
  assumes "\<And>a c. a \<in> set manifest \<Longrightarrow> net2 a = Some c \<Longrightarrow> net1 a = Some c"
  shows "caches (install_with manifest net2 (install_with manifest net1 w))
         = caches (install_with manifest net1 w)"
proof -
  let ?w1 = "install_with manifest net1 w"
  let ?w2 = "call SkipWaiting (host_caches_open CACHE_NAME ?w1)"
  have same: "caches ?w2 = caches ?w1"
    by (simp add: call_def host_caches_open_def caches_open_triv install_has_bucket)
  have "caches (precache net2 manifest ?w2) = caches ?w2"
    by (rule precache_noop) (simp add: same install_stores assms)
  then show ?thesis
    using same by (simp add: install_with_def [of manifest net2 ?w1] Let_def)
qed

text \<open>
  C6: running install a second time, with the same manifest and against the same
  network, on the world the first run left, leaves the cache storage exactly as the
  first run left it: same buckets, same entries in the same places, none twice. This
  holds for every starting storage, populated or not.
\<close>

theorem install_idempotent:
  "caches (install_with manifest net (install_with manifest net w))
     = caches (install_with manifest net w)
   \<and> caches (install net (install net w)) = caches (install net w)"
  by (simp add: install_def install_again)

text \<open>
  On a bucket that already holds an older \<open>/b.js\<close>: one run rewrites the entry where
  it stands, a second run changes nothing.
\<close>

theorem install_idempotent_witness:
  "caches (install_with [''/a.js'', ''/b.js''] a_js_fails stale_b_world)
     = [(CACHE_NAME, [(''/b.js'', served ''B'')])]
   \<and> caches (install_with [''/a.js'', ''/b.js''] a_js_fails
               (install_with [''/a.js'', ''/b.js''] a_js_fails stale_b_world))
     = [(CACHE_NAME, [(''/b.js'', served ''B'')])]"
proof -
  have once: "caches (install_with [''/a.js'', ''/b.js''] a_js_fails stale_b_world)
     = [(CACHE_NAME, [(''/b.js'', served ''B'')])]"
    by (simp add: install_with_def Let_def host_caches_open_def caches_open_def caches_keys_def
        call_def host_cache_add_def cache_put_def initial_world_def a_js_fails_def
        stale_b_world_def)
  show ?thesis
    using install_idempotent
        [where manifest = "[''/a.js'', ''/b.js'']" and net = a_js_fails and w = stale_b_world]
      once
    by simp
qed

subsection \<open>Activation\<close>

lemma caches_fold_delete:
  "caches (fold (\<lambda>key v. if key = CACHE_NAME then v else host_caches_delete key v) ks w) =
   fold (\<lambda>key cs. if key = CACHE_NAME then cs else caches_delete key cs) ks (caches w)"
  by (induction ks arbitrary: w) (simp_all add: host_caches_delete_def call_def)

lemma keys_fold_delete:
  "caches_keys (fold (\<lambda>key cs. if key = CACHE_NAME then cs else caches_delete key cs) ks cs) =
   filter (\<lambda>k. k = CACHE_NAME \<or> k \<notin> set ks) (caches_keys cs)"
proof (induction ks arbitrary: cs)
  case Nil
  show ?case by simp
next
  case (Cons k ks)
  have del: "caches_keys (caches_delete k cs) = filter (\<lambda>x. x \<noteq> k) (caches_keys cs)"
    by (induction cs) (auto simp: caches_keys_def caches_delete_def)
  show ?case
  proof (cases "k = CACHE_NAME")
    case True
    then show ?thesis using Cons.IH [of cs] by (auto intro: filter_cong)
  next
    case False
    then show ?thesis using Cons.IH [of "caches_delete k cs"]
      by (auto simp: del intro: filter_cong)
  qed
qed

lemma activate_keys:
  "caches_keys (caches (activate w)) = filter (\<lambda>k. k = CACHE_NAME) (caches_keys (caches w))"
proof -
  have "caches_keys (caches (activate w)) =
        filter (\<lambda>k. k = CACHE_NAME \<or> k \<notin> set (caches_keys (caches w))) (caches_keys (caches w))"
    by (simp add: activate_def Let_def caches_fold_delete keys_fold_delete call_def)
  also have "\<dots> = filter (\<lambda>k. k = CACHE_NAME) (caches_keys (caches w))"
    by (rule filter_cong) auto
  finally show ?thesis .
qed

lemma fold_delete_keeps_current:
  "map_of (fold (\<lambda>key cs. if key = CACHE_NAME then cs else caches_delete key cs) ks cs) CACHE_NAME
   = map_of cs CACHE_NAME"
  by (induction ks arbitrary: cs) (simp_all add: caches_delete_def delete_conv')

lemma activate_current_bucket:
  "map_of (caches (activate w)) CACHE_NAME = map_of (caches w) CACHE_NAME"
  by (simp add: activate_def Let_def caches_fold_delete fold_delete_keeps_current call_def)

lemma filter_eq_distinct:
  "distinct xs \<Longrightarrow> x \<in> set xs \<Longrightarrow> filter (\<lambda>k. k = x) xs = [x]"
  by (induction xs) (auto simp: filter_empty_conv)

text \<open>Bucket names are unique, so activation leaves the current bucket alone.\<close>

lemma activate_single:
  "distinct (caches_keys (caches w)) \<Longrightarrow> CACHE_NAME \<in> set (caches_keys (caches w)) \<Longrightarrow>
   caches_keys (caches (activate w)) = [CACHE_NAME]"
  by (simp add: activate_keys filter_eq_distinct)

text \<open>
  C1: after the activate handler the set of bucket tags is exactly \<open>{CACHE_NAME}\<close>,
  whatever number of stale tags the storage held beside the current one: the current
  bucket is not deleted and keeps its entries, and every bucket with another tag is
  deleted. The current bucket is there when activation starts because install has
  opened it: activation that follows an install leaves exactly \<open>{CACHE_NAME}\<close> from
  every starting storage.
\<close>

theorem activate_leaves_only_current:
  "(CACHE_NAME \<in> set (caches_keys (caches w)) \<longrightarrow>
      set (caches_keys (caches (activate w))) = {CACHE_NAME}
    \<and> map_of (caches (activate w)) CACHE_NAME = map_of (caches w) CACHE_NAME
    \<and> (\<forall>k \<in> set (caches_keys (caches w)).
          k \<noteq> CACHE_NAME \<longrightarrow> k \<notin> set (caches_keys (caches (activate w)))))
   \<and> set (caches_keys (caches (activate (install_with manifest net w')))) = {CACHE_NAME}"
  using install_has_bucket [of manifest net w']
  by (auto simp: activate_keys activate_current_bucket)

text \<open>
  Two stale buckets around the current one; and the whole lifecycle started on a
  storage that holds the stale bucket alone.
\<close>

theorem activate_leaves_only_current_witness:
  "CACHE_NAME \<in> set (caches_keys
      [(''busting-bias-v1'', [(''/'', served ''old'')]), (''busting-bias-v2'', [(''/'', served ''new'')]),
       (''tmp'', [])])
   \<and> caches (activate (initial_world\<lparr>caches :=
        [(''busting-bias-v1'', [(''/'', served ''old'')]), (''busting-bias-v2'', [(''/'', served ''new'')]),
         (''tmp'', [])]\<rparr>))
      = [(''busting-bias-v2'', [(''/'', served ''new'')])]
   \<and> caches (activate (install_with [''/a.js'', ''/b.js''] a_js_fails
               (initial_world\<lparr>caches := [(''busting-bias-v1'', [(''/'', served ''old'')])]\<rparr>)))
      = [(''busting-bias-v2'', [(''/b.js'', served ''B'')])]"
  using activate_leaves_only_current
      [where w = "initial_world\<lparr>caches :=
          [(''busting-bias-v1'', [(''/'', served ''old'')]), (''busting-bias-v2'', [(''/'', served ''new'')]),
           (''tmp'', [])]\<rparr>"
         and manifest = "[''/a.js'', ''/b.js'']" and net = a_js_fails
         and w' = "initial_world\<lparr>caches := [(''busting-bias-v1'', [(''/'', served ''old'')])]\<rparr>"]
  by (simp add: activate_def initial_world_def caches_keys_def CACHE_NAME_def call_def
      host_caches_delete_def caches_delete_def install_with_def Let_def host_caches_open_def
      caches_open_def host_cache_add_def cache_put_def a_js_fails_def)

subsection \<open>The scheme guard\<close>

lemma startsWith_scheme:
  "startsWith (scheme_of u) ''http'' = startsWith u ''http''"
proof -
  have "prefix ''http'' (takeWhile (\<lambda>c. c \<noteq> CHR '':'') u) = prefix ''http'' u"
  proof
    assume "prefix ''http'' (takeWhile (\<lambda>c. c \<noteq> CHR '':'') u)"
    then show "prefix ''http'' u" using takeWhile_is_prefix prefix_order.trans by blast
  next
    assume "prefix ''http'' u"
    then obtain v where "u = ''http'' @ v" by (auto simp: prefix_def)
    then show "prefix ''http'' (takeWhile (\<lambda>c. c \<noteq> CHR '':'') u)" by simp
  qed
  then show ?thesis by (simp add: startsWith_def scheme_of_def)
qed

lemma is_http_startsWith: "is_http req \<Longrightarrow> startsWith (url req) ''http''"
proof -
  assume "is_http req"
  then have "startsWith (scheme_of (url req)) ''http''"
    by (auto simp: is_http_def startsWith_def)
  then show ?thesis by (simp add: startsWith_scheme)
qed

text \<open>
  The guard tests the first four characters of the URL. On the schemes of
  \<open>browser_schemes\<close> this is the test of the scheme against HTTP and HTTPS.
\<close>

lemma browser_scheme_guard:
  "scheme_of u \<in> set browser_schemes \<Longrightarrow>
   startsWith u ''http'' \<longleftrightarrow> scheme_of u = ''http'' \<or> scheme_of u = ''https''"
proof -
  assume "scheme_of u \<in> set browser_schemes"
  then have "startsWith (scheme_of u) ''http'' \<longleftrightarrow>
             scheme_of u = ''http'' \<or> scheme_of u = ''https''"
    by (auto simp: browser_schemes_def startsWith_def)
  then show ?thesis by (simp add: startsWith_scheme)
qed

text \<open>
  C8: every request whose scheme is not HTTP or HTTPS, among the schemes a browser
  uses (extension-internal requests are the case in point), makes the fetch handler
  return without intercepting: the world is unchanged, so there is no cache lookup, no
  network fetch, no cache store and no response object, and no response is supplied.
  The same holds for every URL that does not begin with \<open>http\<close>.
\<close>

theorem non_http_request_passes_through:
  "(scheme_of (url req) \<in> set browser_schemes \<longrightarrow> \<not> is_http req \<longrightarrow>
      fetch_handler net req w = (NotIntercepted, w))
   \<and> (\<not> startsWith (url req) ''http'' \<longrightarrow> fetch_handler net req w = (NotIntercepted, w))"
proof -
  have guard: "fetch_handler net req w = (NotIntercepted, w)"
    if "\<not> startsWith (url req) ''http''"
    using that by (simp add: fetch_handler_def)
  have "\<not> startsWith (url req) ''http''"
    if "scheme_of (url req) \<in> set browser_schemes" "\<not> is_http req"
    using that browser_scheme_guard [of "url req"] by (simp add: is_http_def)
  then show ?thesis using guard by blast
qed

theorem non_http_request_passes_through_witness:
  "scheme_of (url extension_request) \<in> set browser_schemes \<and> \<not> is_http extension_request
   \<and> \<not> startsWith (url extension_request) ''http''
   \<and> fetch_handler online extension_request cached_css_world
     = (NotIntercepted, cached_css_world)"
  using non_http_request_passes_through
      [where req = extension_request and net = online and w = cached_css_world]
  by (simp add: extension_request_def scheme_of_def browser_schemes_def is_http_def
      startsWith_def)

subsection \<open>The fetch handler: host calls\<close>

lemma host_caches_match_hit:
  "caches_match (caches w) u = Some c \<Longrightarrow>
   host_caches_match u w =
     (Some (length (objs w)),
      w\<lparr>objs := objs w @ [\<lparr>content = c, bodyUsed = False\<rparr>], calls := calls w @ [CachesMatch u]\<rparr>)"
  by (simp add: host_caches_match_def call_def alloc_def Let_def)

lemma host_caches_match_miss:
  "caches_match (caches w) u = None \<Longrightarrow>
   host_caches_match u w = (None, w\<lparr>calls := calls w @ [CachesMatch u]\<rparr>)"
  by (simp add: host_caches_match_def call_def Let_def)

lemma host_fetch_fail:
  "net u = None \<Longrightarrow> host_fetch net u w = (Inl FetchFailed, w\<lparr>calls := calls w @ [Fetch u]\<rparr>)"
  by (simp add: host_fetch_def call_def Let_def)


text \<open>The fetch handler and the outstanding puts create no second bucket.\<close>

lemma fetch_keeps_single:
  "caches_keys (caches w) = [CACHE_NAME] \<Longrightarrow>
   caches_keys (caches (snd (fetch_handler net req w))) = [CACHE_NAME]"
  by (auto simp: fetch_handler_def host_caches_match_def host_fetch_def
      host_caches_open_def host_clone_def alloc_def call_def host_cache_put_def Let_def
      caches_open_def
      split: option.splits prod.splits sum.splits if_splits)

lemma run_put_keys: "caches_keys (caches (run_put t v)) = caches_keys (caches v)"
  by (cases t) (simp add: keys_cache_put)

lemma settle_keys: "caches_keys (caches (settle w)) = caches_keys (caches w)"
proof -
  have "caches_keys (caches (fold run_put ts v)) = caches_keys (caches v)" for ts v
    by (induction ts arbitrary: v) (simp_all add: run_put_keys)
  then show ?thesis by (simp add: settle_def)
qed

subsection \<open>The fetch handler: sub-resources\<close>

text \<open>
  C3: for every non-navigation HTTP(S) request that the lookup of the handler,
  \<open>caches.match(req)\<close>, finds in the cache storage (after activation: in the bucket, see
  \<open>caches_match_single\<close>), the handler responds with the cached payload, as a new
  response object, and makes no network fetch: its only host call is the lookup, and
  the count of fetch calls is what it was.
\<close>

theorem subresource_hit_no_network:
  assumes "is_http req" and "mode req \<noteq> ''navigate''"
    and "caches_match (caches w) (url req) = Some c"
  shows "fetch_handler net req w =
           (RespondWith (Some (length (objs w))),
            w\<lparr>objs := objs w @ [\<lparr>content = c, bodyUsed = False\<rparr>],
              calls := calls w @ [CachesMatch (url req)]\<rparr>)
         \<and> net_calls (snd (fetch_handler net req w)) = net_calls w"
  using assms is_http_startsWith [OF assms(1)]
  by (simp add: fetch_handler_def host_caches_match_hit net_calls_def is_fetch_call_def)

theorem subresource_hit_no_network_witness:
  "is_http css_request \<and> mode css_request \<noteq> ''navigate''
   \<and> caches_match (caches cached_css_world) (url css_request) = Some (served ''cached css'')
   \<and> fetch_handler online css_request cached_css_world =
       (RespondWith (Some 0),
        cached_css_world\<lparr>objs := [\<lparr>content = served ''cached css'', bodyUsed = False\<rparr>],
                          calls := [CachesMatch ''https://h/style.css'']\<rparr>)
   \<and> net_calls (snd (fetch_handler online css_request cached_css_world)) = 0"
proof -
  have h1: "is_http css_request"
    by (simp add: is_http_def scheme_of_def css_request_def)
  have h2: "mode css_request \<noteq> ''navigate''"
    by (simp add: css_request_def)
  have h3: "caches_match (caches cached_css_world) (url css_request) = Some (served ''cached css'')"
    by (simp add: cached_css_world_def css_request_def)
  show ?thesis
    using subresource_hit_no_network
        [where req = css_request and w = cached_css_world and c = "served ''cached css''"
           and net = online] h1 h2 h3
    by (simp add: cached_css_world_def initial_world_def css_request_def net_calls_def
        is_fetch_call_def)
qed

text \<open>
  C7: for every non-navigation HTTP(S) request that the lookup does not find, if the
  network fetch fails then the handler responds with the no-match result of the
  lookup, that is, with no response. It has made the lookup and the one fetch, and
  nothing else.
\<close>

theorem subresource_miss_offline:
  assumes "is_http req" and "mode req \<noteq> ''navigate''"
    and "caches_match (caches w) (url req) = None"
    and "net (url req) = None"
  shows "fetch_handler net req w =
           (RespondWith None, w\<lparr>calls := calls w @ [CachesMatch (url req), Fetch (url req)]\<rparr>)"
  using assms is_http_startsWith [OF assms(1)]
  by (simp add: fetch_handler_def host_caches_match_miss host_fetch_fail)

theorem subresource_miss_offline_witness:
  "is_http css_request \<and> mode css_request \<noteq> ''navigate''
   \<and> caches_match (caches initial_world) (url css_request) = None
   \<and> offline (url css_request) = None
   \<and> fetch_handler offline css_request initial_world =
       (RespondWith None,
        initial_world\<lparr>calls := [CachesMatch ''https://h/style.css'', Fetch ''https://h/style.css'']\<rparr>)"
proof -
  have h1: "is_http css_request"
    by (simp add: is_http_def scheme_of_def css_request_def)
  have h2: "mode css_request \<noteq> ''navigate''"
    by (simp add: css_request_def)
  have h3: "caches_match (caches initial_world) (url css_request) = None"
    by (simp add: initial_world_def)
  have h4: "offline (url css_request) = None"
    by (simp add: offline_def)
  show ?thesis
    using subresource_miss_offline
        [where req = css_request and w = initial_world and net = offline] h1 h2 h3 h4
    by (simp add: initial_world_def css_request_def)
qed




lemma pending_settle: "pending (settle w) = []"
proof -
  have "\<And>v. pending (fold run_put ts v) = pending v" for ts
    by (induction ts) (auto split: if_splits)
  then show ?thesis by (simp add: settle_def)
qed

lemma precache_frame:
  "pending (precache net ms w) = pending w \<and> objs (precache net ms w) = objs w"
  by (induction ms arbitrary: w)
     (simp_all add: host_cache_add_def call_def Let_def split: option.splits)

lemma wf_pending_install: "wf_pending w \<Longrightarrow> wf_pending (install_with manifest net w)"
  by (simp add: wf_pending_def install_with_def Let_def precache_frame call_def
      host_caches_open_def)

lemma activate_frame: "pending (activate w) = pending w \<and> objs (activate w) = objs w"
proof -
  have "pending (fold (\<lambda>key v. if key = CACHE_NAME then v else host_caches_delete key v) ks v)
          = pending v
      \<and> objs (fold (\<lambda>key v. if key = CACHE_NAME then v else host_caches_delete key v) ks v)
          = objs v" for ks v
    by (induction ks arbitrary: v) (simp_all add: host_caches_delete_def call_def)
  then show ?thesis by (simp add: activate_def Let_def call_def)
qed

lemma wf_pending_activate: "wf_pending w \<Longrightarrow> wf_pending (activate w)"
  by (simp add: wf_pending_def activate_frame)

lemma wf_pending_settle: "wf_pending (settle w)"
  by (simp add: wf_pending_def pending_settle)

lemma wf_pending_fetch:
  "wf_pending w \<Longrightarrow> wf_pending (snd (fetch_handler net req w))"
  by (auto simp: wf_pending_def fetch_handler_def host_caches_match_def host_fetch_def
      host_caches_open_def host_clone_def alloc_def call_def host_cache_put_def Let_def
      split: option.splits prod.splits sum.splits if_splits)




subsection \<open>The fetch handler: navigation\<close>

lemma navigate_offline:
  assumes "startsWith (url req) ''http''" and "mode req = ''navigate''"
    and "net (url req) = None"
  shows "fetch_handler net req w =
    (case caches_match (caches w) (url req) of
       Some c \<Rightarrow>
         (RespondWith (Some (length (objs w))),
          w\<lparr>objs := objs w @ [\<lparr>content = c, bodyUsed = False\<rparr>],
            calls := calls w @ [Fetch (url req), CachesMatch (url req)]\<rparr>)
     | None \<Rightarrow>
         (case caches_match (caches w) ''/offline.html'' of
            Some c \<Rightarrow>
              (RespondWith (Some (length (objs w))),
               w\<lparr>objs := objs w @ [\<lparr>content = c, bodyUsed = False\<rparr>],
                 calls := calls w @ [Fetch (url req), CachesMatch (url req),
                                      CachesMatch ''/offline.html'']\<rparr>)
          | None \<Rightarrow>
              (RespondWith None,
               w\<lparr>calls := calls w @ [Fetch (url req), CachesMatch (url req),
                                      CachesMatch ''/offline.html'']\<rparr>)))"
  using assms
  by (simp add: fetch_handler_def host_fetch_fail host_caches_match_hit host_caches_match_miss
      split: option.splits)

text \<open>
  C5: for every navigation HTTP(S) request whose network fetch fails, the handler
  responds with the cached entry for the request when the lookup finds one; otherwise
  with the stored \<open>/offline.html\<close> when the lookup finds that; and when it finds
  neither, with no response (\<open>RespondWith None\<close>), not with an empty one.
\<close>

theorem navigate_offline_fallback:
  assumes "is_http req" and "mode req = ''navigate''" and "net (url req) = None"
  shows "(\<forall>c. caches_match (caches w) (url req) = Some c \<longrightarrow>
            fetch_handler net req w =
              (RespondWith (Some (length (objs w))),
               w\<lparr>objs := objs w @ [\<lparr>content = c, bodyUsed = False\<rparr>],
                 calls := calls w @ [Fetch (url req), CachesMatch (url req)]\<rparr>))
       \<and> (\<forall>c. caches_match (caches w) (url req) = None \<longrightarrow>
              caches_match (caches w) ''/offline.html'' = Some c \<longrightarrow>
            fetch_handler net req w =
              (RespondWith (Some (length (objs w))),
               w\<lparr>objs := objs w @ [\<lparr>content = c, bodyUsed = False\<rparr>],
                 calls := calls w @ [Fetch (url req), CachesMatch (url req),
                                      CachesMatch ''/offline.html'']\<rparr>))
       \<and> (caches_match (caches w) (url req) = None \<longrightarrow>
              caches_match (caches w) ''/offline.html'' = None \<longrightarrow>
            fetch_handler net req w =
              (RespondWith None,
               w\<lparr>calls := calls w @ [Fetch (url req), CachesMatch (url req),
                                      CachesMatch ''/offline.html'']\<rparr>))"
  using navigate_offline [where req = req and net = net and w = w]
    is_http_startsWith [OF assms(1)] assms(2,3)
  by simp

theorem navigate_offline_fallback_witness:
  "is_http page_request \<and> mode page_request = ''navigate'' \<and> offline (url page_request) = None
   \<and> caches_match (caches about_cached_world) (url page_request) = Some (served ''about'')
   \<and> fetch_handler offline page_request about_cached_world =
       (RespondWith (Some 0),
        about_cached_world\<lparr>objs := [\<lparr>content = served ''about'', bodyUsed = False\<rparr>],
          calls := [Fetch ''https://h/about.html'', CachesMatch ''https://h/about.html'']\<rparr>)
   \<and> caches_match (caches offline_page_world) (url page_request) = None
   \<and> caches_match (caches offline_page_world) ''/offline.html'' = Some (served ''sorry'')
   \<and> fetch_handler offline page_request offline_page_world =
       (RespondWith (Some 0),
        offline_page_world\<lparr>objs := [\<lparr>content = served ''sorry'', bodyUsed = False\<rparr>],
          calls := [Fetch ''https://h/about.html'', CachesMatch ''https://h/about.html'',
                    CachesMatch ''/offline.html'']\<rparr>)
   \<and> caches_match (caches initial_world) (url page_request) = None
   \<and> caches_match (caches initial_world) ''/offline.html'' = None
   \<and> fetch_handler offline page_request initial_world =
       (RespondWith None,
        initial_world\<lparr>calls := [Fetch ''https://h/about.html'', CachesMatch ''https://h/about.html'',
                    CachesMatch ''/offline.html'']\<rparr>)"
proof -
  have h1: "is_http page_request"
    by (simp add: is_http_def scheme_of_def page_request_def)
  have h2: "mode page_request = ''navigate''"
    by (simp add: page_request_def)
  have h3: "offline (url page_request) = None"
    by (simp add: offline_def)
  show ?thesis
    using navigate_offline_fallback
        [where req = page_request and net = offline and w = about_cached_world]
      navigate_offline_fallback
        [where req = page_request and net = offline and w = offline_page_world]
      navigate_offline_fallback
        [where req = page_request and net = offline and w = initial_world] h1 h2 h3
    by (simp add: about_cached_world_def offline_page_world_def initial_world_def
        page_request_def)
qed

subsection \<open>The offline fallback document\<close>

text \<open>
  C9: the manifest of service-worker.js does not list \<open>/offline.html\<close>, so install
  leaves the lookup of \<open>/offline.html\<close> as it found it; and when nothing had cached
  that document before install, a navigation request whose fetch fails and which the
  lookup does not find gets no response, not the fallback page.
\<close>

theorem offline_fallback_not_precached:
  "''/offline.html'' \<notin> set PRECACHE_ASSETS
   \<and> caches_match (caches (install net w)) ''/offline.html''
       = caches_match (caches w) ''/offline.html''
   \<and> (is_http req \<longrightarrow> mode req = ''navigate'' \<longrightarrow> net' (url req) = None \<longrightarrow>
      caches_match (caches w) ''/offline.html'' = None \<longrightarrow>
      caches_match (caches (install net w)) (url req) = None \<longrightarrow>
      fst (fetch_handler net' req (install net w)) = RespondWith None)"
proof -
  have absent: "''/offline.html'' \<notin> set PRECACHE_ASSETS"
    by (simp add: PRECACHE_ASSETS_def)
  have same: "caches_match (caches (install net w)) ''/offline.html''
       = caches_match (caches w) ''/offline.html''"
    using absent by (simp add: install_def install_match_other)
  have "fst (fetch_handler net' req (install net w)) = RespondWith None"
    if "is_http req" "mode req = ''navigate''" "net' (url req) = None"
      "caches_match (caches w) ''/offline.html'' = None"
      "caches_match (caches (install net w)) (url req) = None"
    using navigate_offline [where req = req and net = net' and w = "install net w"]
      is_http_startsWith [OF that(1)] that(2-5) same by simp
  then show ?thesis using absent same by blast
qed

theorem offline_fallback_not_precached_witness:
  "is_http page_request \<and> mode page_request = ''navigate'' \<and> offline (url page_request) = None
   \<and> caches_match (caches initial_world) ''/offline.html'' = None
   \<and> caches_match (caches (install online initial_world)) (url page_request) = None
   \<and> cache_match CACHE_NAME (caches (install online initial_world)) ''/index.html''
       = Some (served ''/index.html'')
   \<and> fst (fetch_handler offline page_request (install online initial_world)) = RespondWith None"
proof -
  have h1: "is_http page_request"
    by (simp add: is_http_def scheme_of_def page_request_def)
  have h2: "mode page_request = ''navigate''"
    by (simp add: page_request_def)
  have h3: "offline (url page_request) = None"
    by (simp add: offline_def)
  have h4: "caches_match (caches initial_world) ''/offline.html'' = None"
    by (simp add: initial_world_def)
  have h5: "caches_match (caches (install online initial_world)) (url page_request) = None"
    by (simp add: install_def install_match_other PRECACHE_ASSETS_def page_request_def
        initial_world_def)
  have h6: "cache_match CACHE_NAME (caches (install online initial_world)) ''/index.html''
       = Some (served ''/index.html'')"
    by (simp add: install_def install_stores PRECACHE_ASSETS_def online_def)
  show ?thesis
    using offline_fallback_not_precached
        [where net = online and w = initial_world and req = page_request and net' = offline]
      h1 h2 h3 h4 h5 h6 by simp
qed

text \<open>
  With the manifest of the second copy, a first install stores the fallback page
  whenever the network serves it.
\<close>

lemma copy_precaches_offline:
  "net ''/offline.html'' = Some c \<Longrightarrow>
   caches_match (caches (install_with PRECACHE_ASSETS_copy net initial_world)) ''/offline.html''
     = Some c"
proof -
  assume n: "net ''/offline.html'' = Some c"
  have k: "caches_keys (caches (install_with PRECACHE_ASSETS_copy net initial_world))
           = [CACHE_NAME]"
    unfolding install_with_def Let_def precache_keys
    by (simp add: call_def host_caches_open_def caches_open_def caches_keys_def
        initial_world_def)
  have "cache_match CACHE_NAME (caches (install_with PRECACHE_ASSETS_copy net initial_world))
          ''/offline.html'' = Some c"
    using n by (simp add: install_stores PRECACHE_ASSETS_copy_def)
  then show ?thesis using k by (simp add: caches_match_single)
qed

section \<open>Properties of the game scripts\<close>

text \<open>The guard of both scripts: past the last stimulus a call changes nothing.\<close>

lemma handleResponse_guard:
  "length (stimuli g) \<le> currentIndex g \<Longrightarrow>
   handleResponse choice now g = g \<and> handleResponse_alien choice g = g"
  by (simp add: handleResponse_def handleResponse_alien_def)

lemma originalStimuli_alien_list:
  "originalStimuli_alien =
     [Alien ''/images/alien01_blue.png'' ''right'', Alien ''/images/alien01_brown.png'' ''left'',
      Alien ''/images/alien01_green.png'' ''right'', Alien ''/images/alien01_grey.png'' ''left'',
      Alien ''/images/alien02_blue.png'' ''left'', Alien ''/images/alien02_brown.png'' ''right'',
      Alien ''/images/alien02_green.png'' ''left'', Alien ''/images/alien02_grey.png'' ''right'']"
  by (simp add: originalStimuli_alien_def alienColors_def alienTypes_def)

lemma alien_start_eq:
  "alien_start =
     blank_page\<lparr>stimuli := originalStimuli_alien,
                stimulusHTML := ''/images/alien01_blue.png''\<rparr>"
  by (simp add: alien_start_def initGame_alien_def showNextStimulus_alien_def blank_page_def
      originalStimuli_alien_list)

lemma alien_skipped_eq:
  "alien_skipped =
     blank_page\<lparr>stimuli := originalStimuli_alien, gameOverText := ''Game Over!'',
                gameOverHidden := False, leftDisabled := True, rightDisabled := True,
                restartHidden := False, skipHidden := True, attemptsPanelHidden := False\<rparr>"
  by (simp add: alien_skipped_def click_skip_alien_def endGame_alien_def alien_start_eq
      blank_page_def)

text \<open>
  C10: the claim takes the guard \<open>currentIndex >= stimuli.length\<close> to cover every
  call made after the last stimulus has been answered or the game ended. The guard
  tests the index alone, and the index moves only when the 600 ms timer of an answer
  fires; \<open>endGame\<close> does not move it. So the code counts calls the claim says it
  ignores. In the alien game after Skip to End the buttons are disabled and a click
  changes nothing, but an arrow key still scores and logs an attempt. In the alien game
  at its last alien, a second key press before the timer fires is counted again: nine
  points and nine attempts on eight stimuli. In the word game at its last word the
  same happens: five points on four words.
\<close>

theorem responses_after_the_end_are_counted:
  "gameOverHidden alien_skipped = False
   \<and> currentIndex alien_skipped = 0 \<and> length (stimuli alien_skipped) = 8
   \<and> click_right_alien alien_skipped = alien_skipped
   \<and> score alien_skipped = 0
   \<and> score (keydown_alien ''ArrowRight'' alien_skipped) = 1
   \<and> attemptsList (keydown_alien ''ArrowRight'' alien_skipped)
       = [(''/images/alien01_blue.png'', ''right'', ''right'', True)]
   \<and> currentIndex alien_at_last = 7 \<and> score alien_at_last = 7
   \<and> score (keydown_alien ''ArrowRight'' (keydown_alien ''ArrowRight'' alien_at_last)) = 9
   \<and> length (attemptsList
         (keydown_alien ''ArrowRight'' (keydown_alien ''ArrowRight'' alien_at_last))) = 9
   \<and> length (stimuli alien_at_last) = 8
   \<and> score (handleResponse ''left'' 6200 (handleResponse ''left'' 6000 word_at_last)) = 5
   \<and> length (responses (handleResponse ''left'' 6200 (handleResponse ''left'' 6000 word_at_last)))
       = 5
   \<and> length (stimuli word_at_last) = 4"
proof -
  have skipped: "gameOverHidden alien_skipped = False
     \<and> currentIndex alien_skipped = 0 \<and> length (stimuli alien_skipped) = 8
     \<and> click_right_alien alien_skipped = alien_skipped
     \<and> score alien_skipped = 0
     \<and> score (keydown_alien ''ArrowRight'' alien_skipped) = 1
     \<and> attemptsList (keydown_alien ''ArrowRight'' alien_skipped)
         = [(''/images/alien01_blue.png'', ''right'', ''right'', True)]"
    by (simp add: alien_skipped_eq blank_page_def originalStimuli_alien_list
        click_right_alien_def keydown_alien_def handleResponse_alien_def logAttempt_def
        Let_def)
  have last: "currentIndex alien_at_last = 7 \<and> score alien_at_last = 7
     \<and> score (keydown_alien ''ArrowRight'' (keydown_alien ''ArrowRight'' alien_at_last)) = 9
     \<and> length (attemptsList
           (keydown_alien ''ArrowRight'' (keydown_alien ''ArrowRight'' alien_at_last))) = 9
     \<and> length (stimuli alien_at_last) = 8"
    by code_simp
  have word: "score (handleResponse ''left'' 6200 (handleResponse ''left'' 6000 word_at_last)) = 5
     \<and> length (responses (handleResponse ''left'' 6200 (handleResponse ''left'' 6000 word_at_last)))
         = 5
     \<and> length (stimuli word_at_last) = 4"
    by (simp add: word_at_last_def blank_page_def originalStimuli_def handleResponse_def
        updateScoreDisplay_def saveResponse_def showFeedback_def Let_def)
  show ?thesis using skipped last word by simp
qed

end
